theory Spec2Isabelle
  imports Complex_Main
begin

section \<open>Configuration (config.py)\<close>

text \<open>
  The fields of \<open>Settings\<close> that the resilience layer reads. They come from the
  environment, so they are a parameter of every function that reads \<open>settings\<close>;
  \<open>default_settings\<close> holds the defaults written in the class.
\<close>

record Settings =
  CACHE_TTL :: int
  CACHE_ENABLED :: bool
  CIRCUIT_BREAKER_ENABLED :: bool
  CIRCUIT_BREAKER_FAILURE_THRESHOLD :: int
  CIRCUIT_BREAKER_TIMEOUT_SECONDS :: int

definition default_settings :: Settings where
  "default_settings =
     \<lparr>CACHE_TTL = 300, CACHE_ENABLED = False, CIRCUIT_BREAKER_ENABLED = True,
      CIRCUIT_BREAKER_FAILURE_THRESHOLD = 5, CIRCUIT_BREAKER_TIMEOUT_SECONDS = 60\<rparr>"

section \<open>The world outside the process\<close>

text \<open>
  Everything an awaited operation can read or change is a \<open>world\<close>: the wall clock
  that \<open>time.time()\<close> reads, and whatever else an extension of the record holds.
  An operation (the \<open>func\<close> given to \<open>CircuitBreaker.call\<close>) maps the world before it
  runs to its outcome and the world after: \<open>Inl e\<close> when it raises the exception
  \<open>e\<close>, \<open>Inr r\<close> when it returns \<open>r\<close>. The clock is a real number; the rounding of
  Python's floats is not modelled.
\<close>

record world =
  time_time :: real

type_synonym ('e, 'a, 'm) operation =
  "'m world_scheme \<Rightarrow> ('e + 'a) \<times> 'm world_scheme"

section \<open>Circuit breaker (utils/circuit\_breaker.py)\<close>

datatype CircuitState = CLOSED | OPEN | HALF_OPEN

text \<open>
  \<open>failure_count\<close> starts at 0 and is only incremented or set to 0, so it is a
  natural number; the two constructor arguments are Python ints.
\<close>

record CircuitBreaker =
  name :: string
  failure_threshold :: int
  timeout :: int
  failure_count :: nat
  last_failure_time :: "real option"
  state :: CircuitState

text \<open>Python's \<open>x or d\<close> on an optional int: \<open>None\<close> and \<open>0\<close> are falsy.\<close>

definition int_or :: "int option \<Rightarrow> int \<Rightarrow> int" where
  "int_or x d = (case x of None \<Rightarrow> d | Some v \<Rightarrow> if v = 0 then d else v)"

definition init :: "Settings \<Rightarrow> string \<Rightarrow> int option \<Rightarrow> int option \<Rightarrow> CircuitBreaker" where
  "init s n ft tmo =
     \<lparr>name = n,
      failure_threshold = int_or ft (CIRCUIT_BREAKER_FAILURE_THRESHOLD s),
      timeout = int_or tmo (CIRCUIT_BREAKER_TIMEOUT_SECONDS s),
      failure_count = 0,
      last_failure_time = None,
      state = CLOSED\<rparr>"

text \<open>
  What \<open>call\<close> can raise: the fast-fail \<open>Exception("Circuit <name> is OPEN - failing
  fast")\<close>, the operation's own exception re-raised, and the \<open>TypeError\<close> of
  \<open>time.time() - None\<close> on a breaker that is OPEN with no failure time.
\<close>

datatype 'e call_error = CircuitOpen string | Raised 'e | TypeError

text \<open>
  Lines 45-50: the check made before the operation is awaited. The breaker is
  returned changed only on the OPEN to HALF\_OPEN edge.
\<close>

definition gate :: "CircuitBreaker \<Rightarrow> real \<Rightarrow> 'e call_error + CircuitBreaker" where
  "gate cb now =
     (if state cb = OPEN then
        (case last_failure_time cb of
           None \<Rightarrow> Inl TypeError
         | Some t \<Rightarrow>
             if now - t \<ge> real_of_int (timeout cb)
             then Inr (cb\<lparr>state := HALF_OPEN\<rparr>)
             else Inl (CircuitOpen (name cb)))
      else Inr cb)"

text \<open>Lines 56-59: what a returning operation does to the breaker.\<close>

definition on_success :: "CircuitBreaker \<Rightarrow> CircuitBreaker" where
  "on_success cb =
     (if state cb = HALF_OPEN then cb\<lparr>state := CLOSED, failure_count := 0\<rparr> else cb)"

text \<open>Lines 64-74: the exception handler; \<open>now\<close> is \<open>time.time()\<close> read in it.\<close>

definition on_failure :: "CircuitBreaker \<Rightarrow> real \<Rightarrow> CircuitBreaker" where
  "on_failure cb now =
     (let cb1 = cb\<lparr>failure_count := failure_count cb + 1, last_failure_time := Some now\<rparr>
      in if int (failure_count cb1) \<ge> failure_threshold cb1
         then cb1\<lparr>state := OPEN\<rparr> else cb1)"

text \<open>
  \<open>call\<close> returns the outcome, the breaker after the call and the world after it.
  The world changes only through the operation. A call is one step of the breaker:
  calls of one breaker that overlap while their operations are awaited are not
  modelled. Only exceptions that \<open>except Exception\<close> catches are outcomes of an
  operation.
\<close>

definition call ::
  "Settings \<Rightarrow> CircuitBreaker \<Rightarrow> ('e, 'a, 'm) operation \<Rightarrow> 'm world_scheme
     \<Rightarrow> (('e call_error + 'a) \<times> CircuitBreaker) \<times> 'm world_scheme" where
  "call s cb func w =
     (if \<not> CIRCUIT_BREAKER_ENABLED s then
        (case func w of
           (Inl e, w') \<Rightarrow> ((Inl (Raised e), cb), w')
         | (Inr r, w') \<Rightarrow> ((Inr r, cb), w'))
      else
        (case gate cb (time_time w) of
           Inl err \<Rightarrow> ((Inl err, cb), w)
         | Inr cb1 \<Rightarrow>
             (case func w of
                (Inr r, w') \<Rightarrow> ((Inr r, on_success cb1), w')
              | (Inl e, w') \<Rightarrow> ((Inl (Raised e), on_failure cb1 (time_time w')), w'))))"

definition reset :: "CircuitBreaker \<Rightarrow> CircuitBreaker" where
  "reset cb = cb\<lparr>state := CLOSED, failure_count := 0, last_failure_time := None\<rparr>"

text \<open>
  A history of one breaker: calls, each with its operation and the world it finds
  (between two calls the world may change in any way), and manual resets.
\<close>

datatype ('e, 'a, 'm) step =
  Call "('e, 'a, 'm) operation" "'m world_scheme"
| Reset

fun step_result ::
  "Settings \<Rightarrow> CircuitBreaker \<Rightarrow> ('e, 'a, 'm) step \<Rightarrow> CircuitBreaker" where
  "step_result s cb (Call func w) = snd (fst (call s cb func w))"
| "step_result s cb Reset = reset cb"

fun run :: "Settings \<Rightarrow> CircuitBreaker \<Rightarrow> ('e, 'a, 'm) step list \<Rightarrow> CircuitBreaker" where
  "run s cb [] = cb"
| "run s cb (x # xs) = run s (step_result s cb x) xs"

text \<open>A step is a failing call when it is a call that raises.\<close>

fun fails :: "Settings \<Rightarrow> CircuitBreaker \<Rightarrow> ('e, 'a, 'm) step \<Rightarrow> bool" where
  "fails s cb (Call func w) = (case fst (fst (call s cb func w)) of Inl _ \<Rightarrow> True | Inr _ \<Rightarrow> False)"
| "fails s cb Reset = False"

fun all_fail :: "Settings \<Rightarrow> CircuitBreaker \<Rightarrow> ('e, 'a, 'm) step list \<Rightarrow> bool" where
  "all_fail s cb [] = True"
| "all_fail s cb (x # xs) = (fails s cb x \<and> all_fail s (step_result s cb x) xs)"

text \<open>
  The invariant of a breaker that started CLOSED: it is away from CLOSED only with
  the threshold reached and a failure time recorded.
\<close>

definition breaker_inv :: "CircuitBreaker \<Rightarrow> bool" where
  "breaker_inv cb =
     (state cb = CLOSED \<or>
      (failure_threshold cb \<le> int (failure_count cb) \<and> last_failure_time cb \<noteq> None))"

subsection \<open>Concrete breakers and operations\<close>

definition partial_breaker :: CircuitBreaker where
  "partial_breaker =
     (init default_settings ''tmdb-api'' None None)
       \<lparr>failure_count := 2, last_failure_time := Some 10\<rparr>"

definition tripped_breaker :: CircuitBreaker where
  "tripped_breaker =
     (init default_settings ''tmdb-api'' None None)
       \<lparr>failure_count := 5, last_failure_time := Some 10, state := OPEN\<rparr>"

definition returns_true :: "(unit, bool, unit) operation" where
  "returns_true w = (Inr True, w)"

definition always_raises :: "(unit, unit, unit) operation" where
  "always_raises w = (Inl (), w)"

definition one_failure :: "(unit, unit, unit) step list" where
  "one_failure = [Call always_raises \<lparr>time_time = 0\<rparr>]"

text \<open>
  A world that counts how often an operation has run, operations on it, and a breaker
  with threshold 2 that two failing calls open.
\<close>

record counted_world = world +
  invocations :: nat

definition counted_failure :: "counted_world \<Rightarrow> (unit + unit) \<times> counted_world" where
  "counted_failure w = (Inl (), w\<lparr>invocations := invocations w + 1\<rparr>)"

definition two_failures :: "(unit, unit, unit counted_world_ext) step list" where
  "two_failures =
     [Call counted_failure \<lparr>time_time = 0, invocations = 0\<rparr>,
      Call counted_failure \<lparr>time_time = 1, invocations = 1\<rparr>]"

definition threshold_two :: CircuitBreaker where
  "threshold_two = init default_settings ''tmdb-api'' (Some 2) None"

definition opened_breaker :: CircuitBreaker where
  "opened_breaker =
     threshold_two\<lparr>failure_count := 2, last_failure_time := Some 1, state := OPEN\<rparr>"

definition counted_success :: "counted_world \<Rightarrow> (unit + bool) \<times> counted_world" where
  "counted_success w = (Inr True, w\<lparr>invocations := invocations w + 1\<rparr>)"

definition counted_failure_late :: "counted_world \<Rightarrow> (unit + bool) \<times> counted_world" where
  "counted_failure_late w =
     (Inl (), w\<lparr>time_time := time_time w + 5, invocations := invocations w + 1\<rparr>)"

text \<open>The default configuration with the breaker switched off.\<close>

definition bypass_settings :: Settings where
  "bypass_settings = default_settings\<lparr>CIRCUIT_BREAKER_ENABLED := False\<rparr>"

section \<open>Python values\<close>

text \<open>
  The values that \<open>response.json()\<close> yields and that the routers handle as
  \<open>Dict[str, Any]\<close>: \<open>None\<close>, booleans, ints, floats (as reals), strings, lists,
  and dicts with string keys, kept as association lists in insertion order, each
  key once.
\<close>

datatype json =
  JNull
| JBool bool
| JInt int
| JFloat real
| JStr string
| JArr "json list"
| JObj "(string \<times> json) list"

type_synonym dict = "(string \<times> json) list"

text \<open>
  The exceptions that the routers' own expressions can raise: a method missing on a
  value that is no dict, a value that cannot be iterated, sliced, hashed, subscripted
  or added, a missing key, a keyword argument given twice, a pydantic model that
  rejects its arguments, a number too large for a float, and a division by zero.
\<close>

datatype exn =
  AttributeError
| NotIterable
| NotSliceable
| Unhashable
| NotSubscriptable
| KeyError
| DuplicateKeyword
| UnsupportedOperand
| ValidationError
| OverflowError
| ZeroDivisionError

text \<open>\<open>d.get(k, default)\<close> on a dict.\<close>

definition dict_get :: "dict \<Rightarrow> string \<Rightarrow> json \<Rightarrow> json" where
  "dict_get d k dflt = (case map_of d k of None \<Rightarrow> dflt | Some v \<Rightarrow> v)"




text \<open>
  Dict keys. Python compares keys with \<open>==\<close>: \<open>True\<close>, \<open>1\<close> and \<open>1.0\<close> are one
  key, a string equals only the same string, \<open>None\<close> only \<open>None\<close>; lists and dicts
  cannot be keys.
\<close>

datatype pykey = KNone | KNum real | KStr string

definition hash_key :: "json \<Rightarrow> exn + pykey" where
  "hash_key v =
     (case v of
        JNull \<Rightarrow> Inr KNone
      | JBool b \<Rightarrow> Inr (KNum (if b then 1 else 0))
      | JInt i \<Rightarrow> Inr (KNum (real_of_int i))
      | JFloat r \<Rightarrow> Inr (KNum r)
      | JStr s \<Rightarrow> Inr (KStr s)
      | _ \<Rightarrow> Inl Unhashable)"

text \<open>
  A \<open>Dict[int, Dict[str, Any]]\<close> as the routers build it: keys in insertion order,
  each once. \<open>index_put\<close> is \<open>d[k] = v\<close>.
\<close>

type_synonym index = "(pykey \<times> dict) list"




section \<open>Python floats\<close>

text \<open>
  A Python float is an IEEE 754 binary64 value: a real that has 53 significant bits
  and an exponent in range, an infinity, or a NaN. \<open>nearest_double\<close> rounds a real
  to the nearest such value, ties to the even significand, and to an infinity from
  \<open>2 ^ 1024\<close> on. \<open>binade x\<close> is the exponent of the power of two at or below
  \<open>\<bar>x\<bar>\<close>, not below that of the smallest normal number; \<open>ulp x\<close> is the distance
  between neighbouring floats there.
\<close>

datatype pyfloat = Float real | PosInf | NegInf | NaN

definition binade :: "real \<Rightarrow> int" where
  "binade x = max \<lfloor>log 2 \<bar>x\<bar>\<rfloor> (- 1022)"

definition ulp :: "real \<Rightarrow> real" where
  "ulp x = 2 powi (binade x - 52)"

definition round_half_even :: "real \<Rightarrow> int" where
  "round_half_even y =
     (let n = \<lfloor>y\<rfloor>; f = y - of_int n
      in if f < 1 / 2 then n else if 1 / 2 < f then n + 1
         else if even n then n else n + 1)"

definition nearest_double :: "real \<Rightarrow> pyfloat" where
  "nearest_double x =
     (if x = 0 then Float 0
      else (let r = of_int (round_half_even (x / ulp x)) * ulp x
            in if 2 ^ 1024 \<le> r then PosInf
               else if r \<le> - (2 ^ 1024) then NegInf
               else Float r))"

text \<open>
  A real is a float when it is a whole number of units in the last place of its
  binade and lies in the range; such a real is its own nearest float.
\<close>

definition is_double :: "real \<Rightarrow> bool" where
  "is_double x = (x / ulp x \<in> \<int> \<and> \<bar>x\<bar> < 2 ^ 1024)"


text \<open>
  \<open>a / b\<close> on two ints: the float nearest to the quotient, or \<open>OverflowError\<close> when
  that is no finite float.
\<close>

definition int_truediv :: "int \<Rightarrow> int \<Rightarrow> exn + pyfloat" where
  "int_truediv a b =
     (if b = 0 then Inl ZeroDivisionError
      else (case nearest_double (real_of_int a / real_of_int b) of
              Float q \<Rightarrow> Inr (Float q)
            | _ \<Rightarrow> Inl OverflowError))"









section \<open>Models (models/movie\_models.py)\<close>

text \<open>
  A pydantic model instance is represented by the arguments its constructor was
  given; the coercion of accepted values is not modelled. \<open>movie_fields\<close> holds the
  \<open>**movie\<close> arguments of an \<open>EnrichedMovie\<close>.
\<close>

record EnrichedMovie =
  movie_fields :: dict
  is_favorite :: bool
  is_in_watchlist :: bool
  user_rating :: json

record PersonalizedFeed =
  movies :: "EnrichedMovie list"
  total_pages :: json
  current_page :: int
  total_results :: json
  favorites_count :: nat
  watchlist_count :: nat

record DashboardStats =
  total_favorites :: nat
  total_watchlist :: nat
  movies_watched :: nat
  avg_rating :: "pyfloat option"
  favorite_genres :: "string list"

record DashboardFeed =
  popular_movies :: "EnrichedMovie list"
  trending_movies :: "EnrichedMovie list"
  recommended_for_you :: "EnrichedMovie list"
  continue_watching :: "EnrichedMovie list"
  stats :: DashboardStats
  page :: int
  dashboard_total_pages :: int

text \<open>
  \<open>UserMovieData\<close> and \<open>EnrichedMovieDetails\<close>, with the arguments that
  \<open>get_enriched_movie_details\<close> passes; \<open>details_fields\<close> holds the
  \<open>**movie_details\<close> arguments. The fields of \<open>UserMovieData\<close> carry the prefix
  \<open>ud\<close>, two of its names being fields of \<open>EnrichedMovie\<close> already.
\<close>

record UserMovieData =
  ud_is_favorite :: bool
  ud_is_in_watchlist :: bool
  ud_user_rating :: json
  ud_added_to_favorites_date :: json
  ud_added_to_watchlist_date :: json

record EnrichedMovieDetails =
  details_fields :: dict
  user_data :: UserMovieData
  cast :: json
  crew :: json
  reviews_count :: json
  similar_movies :: json


text \<open>
  Which arguments each model class accepts is decided by pydantic, outside the
  repository: it is a parameter of the routers.
\<close>

record pydantic =
  accepts_EnrichedMovie :: "EnrichedMovie \<Rightarrow> bool"
  accepts_PersonalizedFeed :: "PersonalizedFeed \<Rightarrow> bool"
  accepts_DashboardStats :: "DashboardStats \<Rightarrow> bool"
  accepts_DashboardFeed :: "DashboardFeed \<Rightarrow> bool"
  accepts_UserMovieData :: "UserMovieData \<Rightarrow> bool"
  accepts_EnrichedMovieDetails :: "EnrichedMovieDetails \<Rightarrow> bool"

definition new_model :: "('a \<Rightarrow> bool) \<Rightarrow> 'a \<Rightarrow> exn + 'a" where
  "new_model accepts x = (if accepts x then Inr x else Inl ValidationError)"

section \<open>Aggregator (routers/dashboard\_router.py)\<close>





text \<open>
  \<open>_enrich_movie\<close>. \<open>movie.get("id")\<close> is \<open>None\<close> when the key is absent; the
  membership tests hash it. The three keyword arguments must not also come from
  \<open>**movie\<close>.
\<close>

definition enrich_movie :: "pydantic \<Rightarrow> dict \<Rightarrow> index \<Rightarrow> index \<Rightarrow> exn + EnrichedMovie" where
  "enrich_movie pd movie favorites watchlist =
     (case hash_key (dict_get movie ''id'' JNull) of
        Inl e \<Rightarrow> Inl e
      | Inr movie_id \<Rightarrow>
          if map_of movie ''is_favorite'' \<noteq> None \<or> map_of movie ''is_in_watchlist'' \<noteq> None
             \<or> map_of movie ''user_rating'' \<noteq> None
          then Inl DuplicateKeyword
          else new_model (accepts_EnrichedMovie pd)
                 \<lparr>movie_fields = movie,
                  is_favorite = (map_of favorites movie_id \<noteq> None),
                  is_in_watchlist = (map_of watchlist movie_id \<noteq> None),
                  user_rating =
                    dict_get (case map_of favorites movie_id of None \<Rightarrow> [] | Some fav \<Rightarrow> fav)
                      ''rating'' JNull\<rparr>)"

text \<open>
  A movie dict that has none of the three keys that \<open>_enrich_movie\<close> passes as
  keyword arguments beside \<open>**movie\<close>.
\<close>

definition reserved_free :: "dict \<Rightarrow> bool" where
  "reserved_free movie =
     (map_of movie ''is_favorite'' = None \<and> map_of movie ''is_in_watchlist'' = None
      \<and> map_of movie ''user_rating'' = None)"














section \<open>What the aggregator is expected to return\<close>














subsection \<open>Concrete movies, preferences and validators\<close>

text \<open>
  The movies and preferences of the dashboard tests, and a pydantic that accepts every
  argument.
\<close>

definition accept_all :: pydantic where
  "accept_all =
     \<lparr>accepts_EnrichedMovie = (\<lambda>_. True), accepts_PersonalizedFeed = (\<lambda>_. True),
      accepts_DashboardStats = (\<lambda>_. True), accepts_DashboardFeed = (\<lambda>_. True),
      accepts_UserMovieData = (\<lambda>_. True), accepts_EnrichedMovieDetails = (\<lambda>_. True)\<rparr>"

definition fight_club :: dict where
  "fight_club = [(''id'', JInt 550), (''title'', JStr ''Fight Club'')]"

definition dark_knight :: dict where
  "dark_knight = [(''id'', JInt 155), (''title'', JStr ''The Dark Knight'')]"

definition example_favorites :: index where
  "example_favorites = [(KNum 550, [(''rating'', JInt 5)])]"

definition example_watchlist :: index where
  "example_watchlist = [(KNum 155, [])]"







section \<open>Response cache (utils/cache\_manager.py)\<close>

text \<open>
  Modelled from the spec: the backing store is a Redis server, outside the
  repository. Following the data model's \<open>CacheEntry\<close>, it maps a key to a text and
  the time at which the entry expires, and an entry is visible only while
  \<open>now < expires_at\<close>. \<open>redis_up\<close> tells whether a command reaches the server; when
  it does not, the command raises. The server's clock is the world's clock.
\<close>

record redis_world = world +
  redis_store :: "string \<Rightarrow> (string \<times> real) option"
  redis_up :: bool

datatype redis_error = ConnectionError | ResponseError

definition redis_GET :: "'m redis_world_scheme \<Rightarrow> string \<Rightarrow> redis_error + string option" where
  "redis_GET w key =
     (if \<not> redis_up w then Inl ConnectionError
      else Inr (case redis_store w key of
                  None \<Rightarrow> None
                | Some (text, expires_at) \<Rightarrow>
                    if time_time w < expires_at then Some text else None))"

text \<open>\<open>SETEX key seconds value\<close>; the server refuses a time to live that is not positive.\<close>

definition redis_SETEX ::
  "'m redis_world_scheme \<Rightarrow> string \<Rightarrow> int \<Rightarrow> string \<Rightarrow> redis_error + 'm redis_world_scheme" where
  "redis_SETEX w key seconds text =
     (if \<not> redis_up w then Inl ConnectionError
      else if seconds \<le> 0 then Inl ResponseError
      else Inr (w\<lparr>redis_store :=
                   (redis_store w)(key \<mapsto> (text, time_time w + real_of_int seconds))\<rparr>))"

definition redis_DEL ::
  "'m redis_world_scheme \<Rightarrow> string \<Rightarrow> redis_error + 'm redis_world_scheme" where
  "redis_DEL w key =
     (if \<not> redis_up w then Inl ConnectionError
      else Inr (w\<lparr>redis_store := (redis_store w)(key := None)\<rparr>))"

text \<open>
  Python's \<open>json\<close> module is a parameter as well: \<open>json_dumps\<close> writes a value as
  text, \<open>json_loads\<close> reads a text, with \<open>None\<close> for the \<open>JSONDecodeError\<close>.
\<close>

record json_codec =
  json_dumps :: "json \<Rightarrow> string"
  json_loads :: "string \<Rightarrow> json option"

text \<open>
  The manager itself: the \<open>enabled\<close> flag and whether \<open>redis_client\<close> is set.
\<close>

record CacheManager =
  enabled :: bool
  redis_client :: bool

definition cache_init :: "Settings \<Rightarrow> CacheManager" where
  "cache_init s = \<lparr>enabled = CACHE_ENABLED s, redis_client = False\<rparr>"

text \<open>
  \<open>connect\<close>: \<open>from_url\<close> sets the client, and a failing \<open>ping\<close> disables the
  cache.
\<close>

definition connect :: "CacheManager \<Rightarrow> 'm redis_world_scheme \<Rightarrow> CacheManager" where
  "connect cm w =
     (if \<not> enabled cm then cm
      else if redis_up w then cm\<lparr>redis_client := True\<rparr>
      else cm\<lparr>redis_client := True, enabled := False\<rparr>)"

text \<open>
  \<open>get\<close> returns a value, \<open>JNull\<close> being Python's \<open>None\<close>. Every exception of the
  \<open>try\<close> block is logged and gives \<open>None\<close>. The world is not changed.
\<close>

definition cache_get ::
  "json_codec \<Rightarrow> CacheManager \<Rightarrow> string \<Rightarrow> 'm redis_world_scheme \<Rightarrow> json" where
  "cache_get c cm key w =
     (if \<not> enabled cm \<or> \<not> redis_client cm then JNull
      else (case redis_GET w key of
              Inl _ \<Rightarrow> JNull
            | Inr None \<Rightarrow> JNull
            | Inr (Some text) \<Rightarrow>
                if text \<noteq> [] then
                  (case json_loads c text of None \<Rightarrow> JNull | Some v \<Rightarrow> v)
                else JNull))"

text \<open>
  \<open>set\<close>: \<open>ttl or settings.CACHE_TTL\<close>, then \<open>setex\<close>; an exception is logged and
  the world stays as it was.
\<close>

definition cache_set ::
  "json_codec \<Rightarrow> Settings \<Rightarrow> CacheManager \<Rightarrow> string \<Rightarrow> json \<Rightarrow> int option
     \<Rightarrow> 'm redis_world_scheme \<Rightarrow> 'm redis_world_scheme" where
  "cache_set c s cm key v ttl w =
     (if \<not> enabled cm \<or> \<not> redis_client cm then w
      else (case redis_SETEX w key (int_or ttl (CACHE_TTL s)) (json_dumps c v) of
              Inl _ \<Rightarrow> w
            | Inr w' \<Rightarrow> w'))"

definition cache_delete ::
  "CacheManager \<Rightarrow> string \<Rightarrow> 'm redis_world_scheme \<Rightarrow> 'm redis_world_scheme" where
  "cache_delete cm key w =
     (if \<not> enabled cm \<or> \<not> redis_client cm then w
      else (case redis_DEL w key of Inl _ \<Rightarrow> w | Inr w' \<Rightarrow> w'))"

section \<open>Dependency client (services/tmdb\_client.py)\<close>

text \<open>Python's truth value of a value.\<close>

definition truthy :: "json \<Rightarrow> bool" where
  "truthy v =
     (case v of
        JNull \<Rightarrow> False
      | JBool b \<Rightarrow> b
      | JInt i \<Rightarrow> i \<noteq> 0
      | JFloat r \<Rightarrow> r \<noteq> 0
      | JStr s \<Rightarrow> s \<noteq> []
      | JArr xs \<Rightarrow> xs \<noteq> []
      | JObj d \<Rightarrow> d \<noteq> [])"

text \<open>
  \<open>method == "GET" and cache_key\<close>: the key under which a request is cached, if
  any. A key that is \<open>None\<close> or empty is falsy.
\<close>

definition caching_key :: "string \<Rightarrow> string option \<Rightarrow> string option" where
  "caching_key method cache_key =
     (if method = ''GET'' then
        (case cache_key of None \<Rightarrow> None | Some k \<Rightarrow> if k \<noteq> [] then Some k else None)
      else None)"

text \<open>
  \<open>_make_request\<close>. The inner \<open>_request\<close>, which sends the request with httpx and
  raises on a status that is no success, is the operation \<open>send\<close>: the network is a
  parameter. The result is the outcome, the client's breaker after the request, and
  the world after it.
\<close>

definition through_breaker ::
  "Settings \<Rightarrow> CircuitBreaker \<Rightarrow> ('e, json, 'm redis_world_ext) operation
     \<Rightarrow> (json \<Rightarrow> 'm redis_world_scheme \<Rightarrow> 'm redis_world_scheme)
     \<Rightarrow> 'm redis_world_scheme
     \<Rightarrow> (('e call_error + json) \<times> CircuitBreaker) \<times> 'm redis_world_scheme" where
  "through_breaker s cb send store w =
     (case call s cb send w of
        ((Inl e, cb'), w') \<Rightarrow> ((Inl e, cb'), w')
      | ((Inr result, cb'), w') \<Rightarrow> ((Inr result, cb'), store result w'))"

definition make_request ::
  "json_codec \<Rightarrow> Settings \<Rightarrow> CacheManager \<Rightarrow> CircuitBreaker
     \<Rightarrow> ('e, json, 'm redis_world_ext) operation
     \<Rightarrow> string \<Rightarrow> string option \<Rightarrow> 'm redis_world_scheme
     \<Rightarrow> (('e call_error + json) \<times> CircuitBreaker) \<times> 'm redis_world_scheme" where
  "make_request c s cm cb send method cache_key w =
     (case caching_key method cache_key of
        Some k \<Rightarrow>
          (let cached = cache_get c cm k w
           in if truthy cached then ((Inr cached, cb), w)
              else through_breaker s cb send (\<lambda>result. cache_set c s cm k result None) w)
      | None \<Rightarrow> through_breaker s cb send (\<lambda>result w'. w') w)"

text \<open>Python's \<open>str\<close> of an int, for the f-strings.\<close>

definition digit_char :: "nat \<Rightarrow> char" where
  "digit_char d = ''0123456789'' ! d"

function str_nat :: "nat \<Rightarrow> string" where
  "str_nat n = (if n < 10 then [digit_char n] else str_nat (n div 10) @ [digit_char (n mod 10)])"
  by pat_completeness auto
termination
  by (relation "measure id") auto

definition str_int :: "int \<Rightarrow> string" where
  "str_int i = (if i < 0 then CHR ''-'' # str_nat (nat (- i)) else str_nat (nat i))"

text \<open>\<open>",".join(xs)\<close>.\<close>

fun join_comma :: "string list \<Rightarrow> string" where
  "join_comma [] = []"
| "join_comma [x] = x"
| "join_comma (x # y # ys) = x @ '','' @ join_comma (y # ys)"

text \<open>
  What a typed wrapper hands to \<open>_make_request\<close>: the method, the endpoint, the query
  parameters and the cache key.
\<close>

record request =
  req_method :: string
  req_endpoint :: string
  req_params :: dict
  req_cache_key :: "string option"

text \<open>\<open>if region:\<close> holds for a string that is not empty.\<close>

definition get_popular_movies :: "int \<Rightarrow> string option \<Rightarrow> request" where
  "get_popular_movies page_no region =
     \<lparr>req_method = ''GET'',
      req_endpoint = ''/movie/popular'',
      req_params =
        (''page'', JInt page_no) #
        (case region of
           None \<Rightarrow> []
         | Some r \<Rightarrow> if r \<noteq> [] then [(''region'', JStr r)] else []),
      req_cache_key =
        Some (''popular:movies:page'' @ str_int page_no @ '':region'' @
              (case region of None \<Rightarrow> ''None'' | Some r \<Rightarrow> r))\<rparr>"

definition get_movie_details :: "int \<Rightarrow> string list option \<Rightarrow> request" where
  "get_movie_details movie_id append_to_response =
     \<lparr>req_method = ''GET'',
      req_endpoint = ''/movie/'' @ str_int movie_id,
      req_params =
        [(''append_to_response'',
          JStr (case append_to_response of
                  None \<Rightarrow> ''credits,reviews,similar,videos,images''
                | Some xs \<Rightarrow>
                    if xs \<noteq> [] then join_comma xs
                    else ''credits,reviews,similar,videos,images''))],
      req_cache_key = Some (''movie:'' @ str_int movie_id @ '':full'')\<rparr>"

definition get_movie_reviews :: "int \<Rightarrow> int \<Rightarrow> request" where
  "get_movie_reviews movie_id page_no =
     \<lparr>req_method = ''GET'',
      req_endpoint = ''/movie/'' @ str_int movie_id @ ''/reviews'',
      req_params = [(''page'', JInt page_no)],
      req_cache_key =
        Some (''movie:'' @ str_int movie_id @ '':reviews:page'' @ str_int page_no)\<rparr>"

subsection \<open>Concrete caches, stores and codecs\<close>

text \<open>
  A codec for the JSON texts of the atoms \<open>null\<close>, \<open>true\<close>, \<open>false\<close>, \<open>{}\<close>
  and \<open>[]\<close>, which is all the examples need; a world that also counts the requests
  sent to the dependency; a connected cache; and stores that hold one entry, expiring
  at time 300.
\<close>

definition atoms_codec :: json_codec where
  "atoms_codec =
     \<lparr>json_dumps =
        (\<lambda>v. if v = JNull then ''null'' else if v = JBool True then ''true''
              else if v = JBool False then ''false'' else if v = JObj [] then ''{}''
              else if v = JArr [] then ''[]'' else ''?''),
      json_loads =
        (\<lambda>t. if t = ''null'' then Some JNull else if t = ''true'' then Some (JBool True)
              else if t = ''false'' then Some (JBool False) else if t = ''{}'' then Some (JObj [])
              else if t = ''[]'' then Some (JArr []) else None)\<rparr>"

record probe_world = redis_world +
  requests_sent :: nat

definition send_fails :: "probe_world \<Rightarrow> (unit + json) \<times> probe_world" where
  "send_fails w = (Inl (), w\<lparr>requests_sent := requests_sent w + 1\<rparr>)"

definition live_cache :: CacheManager where
  "live_cache = \<lparr>enabled = True, redis_client = True\<rparr>"

definition empty_redis :: probe_world where
  "empty_redis =
     \<lparr>time_time = 0, redis_store = (\<lambda>_. None), redis_up = True, requests_sent = 0\<rparr>"

definition redis_with_empty_object :: probe_world where
  "redis_with_empty_object =
     \<lparr>time_time = 0, redis_store = [''genres:movies'' \<mapsto> (''{}'', 300)], redis_up = True,
      requests_sent = 0\<rparr>"

definition redis_with_true :: probe_world where
  "redis_with_true =
     \<lparr>time_time = 0, redis_store = [''genres:movies'' \<mapsto> (''true'', 300)], redis_up = True,
      requests_sent = 0\<rparr>"

definition fresh_breaker :: CircuitBreaker where
  "fresh_breaker = init default_settings ''tmdb-api'' None None"

section \<open>Circuit breaker: properties\<close>

lemma on_failure_fields [simp]:
  "failure_threshold (on_failure cb now) = failure_threshold cb"
  "timeout (on_failure cb now) = timeout cb"
  "name (on_failure cb now) = name cb"
  "failure_count (on_failure cb now) = failure_count cb + 1"
  "last_failure_time (on_failure cb now) = Some now"
  by (simp_all add: on_failure_def Let_def)

lemma on_success_fields [simp]:
  "failure_threshold (on_success cb) = failure_threshold cb"
  "timeout (on_success cb) = timeout cb"
  "name (on_success cb) = name cb"
  "last_failure_time (on_success cb) = last_failure_time cb"
  by (simp_all add: on_success_def)

lemma gate_fields:
  assumes "gate cb now = Inr cb1"
  shows "failure_threshold cb1 = failure_threshold cb" "timeout cb1 = timeout cb"
    "name cb1 = name cb" "failure_count cb1 = failure_count cb"
    "last_failure_time cb1 = last_failure_time cb"
    "state cb1 = (if state cb = OPEN then HALF_OPEN else state cb)"
  using assms by (auto simp: gate_def split: if_splits option.splits)

lemma breaker_inv_gate: "breaker_inv cb \<Longrightarrow> gate cb now = Inr cb1 \<Longrightarrow> breaker_inv cb1"
  by (auto simp: gate_def breaker_inv_def split: if_splits option.splits)

lemma breaker_inv_on_success: "breaker_inv cb \<Longrightarrow> breaker_inv (on_success cb)"
  by (auto simp: on_success_def breaker_inv_def)

lemma breaker_inv_on_failure: "breaker_inv cb \<Longrightarrow> breaker_inv (on_failure cb now)"
  by (auto simp: on_failure_def breaker_inv_def Let_def)

lemma breaker_inv_reset: "breaker_inv (reset cb)"
  by (simp add: reset_def breaker_inv_def)

lemma call_cases:
  fixes func :: "('e, 'a, 'm) operation"
  obtains (bypass) "\<not> CIRCUIT_BREAKER_ENABLED s" "snd (fst (call s cb func w)) = cb"
  | (rejected) err where "CIRCUIT_BREAKER_ENABLED s" "gate cb (time_time w) = Inl err"
      "call s cb func w = ((Inl err, cb), w)"
  | (returned) cb1 r w' where "CIRCUIT_BREAKER_ENABLED s"
      "(gate cb (time_time w) :: 'e call_error + CircuitBreaker) = Inr cb1"
      "func w = (Inr r, w')" "call s cb func w = ((Inr r, on_success cb1), w')"
  | (raised) cb1 e w' where "CIRCUIT_BREAKER_ENABLED s"
      "(gate cb (time_time w) :: 'e call_error + CircuitBreaker) = Inr cb1"
      "func w = (Inl e, w')"
      "call s cb func w = ((Inl (Raised e), on_failure cb1 (time_time w')), w')"
proof (cases "CIRCUIT_BREAKER_ENABLED s")
  case False
  then have "snd (fst (call s cb func w)) = cb"
    by (simp add: call_def split: prod.splits sum.splits)
  with False show ?thesis by (rule bypass)
next
  case en: True
  show ?thesis
  proof (cases "gate cb (time_time w) :: 'e call_error + CircuitBreaker")
    case (Inl err)
    with en have "call s cb func w = ((Inl err, cb), w)" by (simp add: call_def)
    with en Inl show ?thesis by (rule rejected)
  next
    case g: (Inr cb1)
    obtain res w' where f: "func w = (res, w')" by (cases "func w")
    show ?thesis
    proof (cases res)
      case (Inl e)
      with f have f': "func w = (Inl e, w')" by simp
      with en g have "call s cb func w = ((Inl (Raised e), on_failure cb1 (time_time w')), w')"
        by (simp add: call_def)
      with en g f' show ?thesis by (rule raised)
    next
      case (Inr r)
      with f have f': "func w = (Inr r, w')" by simp
      with en g have "call s cb func w = ((Inr r, on_success cb1), w')"
        by (simp add: call_def)
      with en g f' show ?thesis by (rule returned)
    qed
  qed
qed

lemma breaker_inv_call:
  fixes func :: "('e, 'a, 'm) operation"
  assumes "breaker_inv cb"
  shows "breaker_inv (snd (fst (call s cb func w)))"
proof (rule call_cases [of s cb func w])
  assume "snd (fst (call s cb func w)) = cb"
  with assms show ?thesis by simp
next
  fix err :: "'e call_error"
  assume "call s cb func w = ((Inl err, cb), w)"
  with assms show ?thesis by simp
next
  fix cb1 r w'
  assume "(gate cb (time_time w) :: 'e call_error + CircuitBreaker) = Inr cb1"
    and c: "call s cb func w = ((Inr r, on_success cb1), w')"
  with assms have "breaker_inv cb1" by (blast intro: breaker_inv_gate)
  then show ?thesis by (simp add: c breaker_inv_on_success)
next
  fix cb1 e w'
  assume "(gate cb (time_time w) :: 'e call_error + CircuitBreaker) = Inr cb1"
    and c: "call s cb func w = ((Inl (Raised e), on_failure cb1 (time_time w')), w')"
  with assms have "breaker_inv cb1" by (blast intro: breaker_inv_gate)
  then show ?thesis by (simp add: c breaker_inv_on_failure)
qed

lemma breaker_inv_step: "breaker_inv cb \<Longrightarrow> breaker_inv (step_result s cb x)"
  by (cases x) (simp_all add: breaker_inv_call breaker_inv_reset)

lemma breaker_inv_run: "breaker_inv cb \<Longrightarrow> breaker_inv (run s cb xs)"
  by (induction xs arbitrary: cb) (simp_all add: breaker_inv_step)

lemma call_fixed_fields:
  fixes func :: "('e, 'a, 'm) operation"
  shows "failure_threshold (snd (fst (call s cb func w))) = failure_threshold cb
    \<and> timeout (snd (fst (call s cb func w))) = timeout cb
    \<and> name (snd (fst (call s cb func w))) = name cb"
proof (rule call_cases [of s cb func w])
  assume "snd (fst (call s cb func w)) = cb"
  then show ?thesis by simp
next
  fix err :: "'e call_error"
  assume "call s cb func w = ((Inl err, cb), w)"
  then show ?thesis by simp
next
  fix cb1 r w'
  assume g: "(gate cb (time_time w) :: 'e call_error + CircuitBreaker) = Inr cb1"
    and c: "call s cb func w = ((Inr r, on_success cb1), w')"
  show ?thesis by (simp add: c gate_fields(1-3) [OF g])
next
  fix cb1 e w'
  assume g: "(gate cb (time_time w) :: 'e call_error + CircuitBreaker) = Inr cb1"
    and c: "call s cb func w = ((Inl (Raised e), on_failure cb1 (time_time w')), w')"
  show ?thesis by (simp add: c gate_fields(1-3) [OF g])
qed

lemma step_fixed_fields:
  "failure_threshold (step_result s cb x) = failure_threshold cb"
  "timeout (step_result s cb x) = timeout cb"
  "name (step_result s cb x) = name cb"
  by (cases x; simp add: call_fixed_fields reset_def)+

lemma run_fixed_fields:
  "failure_threshold (run s cb xs) = failure_threshold cb"
  "timeout (run s cb xs) = timeout cb"
  "name (run s cb xs) = name cb"
  by (induction xs arbitrary: cb; simp add: step_fixed_fields)+

lemma breaker_inv_closed: "state cb = CLOSED \<Longrightarrow> breaker_inv cb"
  by (simp add: breaker_inv_def)

lemma run_append: "run s cb (xs @ ys) = run s (run s cb xs) ys"
  by (induction xs arbitrary: cb) simp_all

lemma all_fail_append:
  "all_fail s cb (xs @ ys) = (all_fail s cb xs \<and> all_fail s (run s cb xs) ys)"
  by (induction xs arbitrary: cb) auto

subsection \<open>Successes of a CLOSED breaker, and where the count is reset\<close>

text \<open>
  C8. A call that returns on a CLOSED breaker leaves the breaker as it was: the state,
  a partial \<open>failure_count\<close> and \<open>last_failure_time\<close> are all untouched. A call
  changes \<open>failure_count\<close> in two ways only: a raising operation adds one, and an
  operation returning while the breaker is HALF\_OPEN (after the check of lines
  45-50) closes it and sets the count to 0. \<open>reset\<close> is the other place that
  writes 0.
\<close>

theorem closed_success_leaves_breaker:
  fixes func :: "('e, 'a, 'm) operation"
  shows "(state cb = CLOSED \<and> call s cb func w = ((Inr r, cb'), w') \<longrightarrow> cb' = cb)
    \<and> (call s cb func w = ((res, cb''), w'') \<and> failure_count cb'' \<noteq> failure_count cb \<longrightarrow>
          (\<exists>e. res = Inl (Raised e) \<and> failure_count cb'' = failure_count cb + 1)
          \<or> (\<exists>r1 cb1. res = Inr r1
                \<and> (gate cb (time_time w) :: 'e call_error + CircuitBreaker) = Inr cb1
                \<and> state cb1 = HALF_OPEN \<and> cb'' = cb1\<lparr>state := CLOSED, failure_count := 0\<rparr>))
    \<and> state (reset cb) = CLOSED \<and> failure_count (reset cb) = 0"
proof (intro conjI impI)
  assume "state cb = CLOSED \<and> call s cb func w = ((Inr r, cb'), w')"
  then show "cb' = cb"
    by (auto simp: call_def gate_def on_success_def split: if_splits prod.splits sum.splits)
next
  assume a: "call s cb func w = ((res, cb''), w'') \<and> failure_count cb'' \<noteq> failure_count cb"
  show "(\<exists>e. res = Inl (Raised e) \<and> failure_count cb'' = failure_count cb + 1)
          \<or> (\<exists>r1 cb1. res = Inr r1
                \<and> (gate cb (time_time w) :: 'e call_error + CircuitBreaker) = Inr cb1
                \<and> state cb1 = HALF_OPEN \<and> cb'' = cb1\<lparr>state := CLOSED, failure_count := 0\<rparr>)"
  proof (rule call_cases [of s cb func w])
    assume "snd (fst (call s cb func w)) = cb"
    with a have "cb'' = cb" by simp
    with a show ?thesis by simp
  next
    fix err :: "'e call_error"
    assume "call s cb func w = ((Inl err, cb), w)"
    with a have "cb'' = cb" by simp
    with a show ?thesis by simp
  next
    fix cb1 r0 w1
    assume g: "(gate cb (time_time w) :: 'e call_error + CircuitBreaker) = Inr cb1"
      and c: "call s cb func w = ((Inr r0, on_success cb1), w1)"
    from a c have r: "res = Inr r0" and b: "cb'' = on_success cb1" by auto
    from a b gate_fields(4) [OF g] have h: "state cb1 = HALF_OPEN"
      by (auto simp: on_success_def split: if_splits)
    with b have "cb'' = cb1\<lparr>state := CLOSED, failure_count := 0\<rparr>"
      by (simp add: on_success_def)
    with r g h show ?thesis by blast
  next
    fix cb1 e w1
    assume g: "(gate cb (time_time w) :: 'e call_error + CircuitBreaker) = Inr cb1"
      and c: "call s cb func w = ((Inl (Raised e), on_failure cb1 (time_time w1)), w1)"
    from a c have "res = Inl (Raised e)" and "cb'' = on_failure cb1 (time_time w1)" by auto
    then show ?thesis by (simp add: gate_fields(4) [OF g])
  qed
qed (simp_all add: reset_def)
text \<open>
  Two runs of the default configuration: a CLOSED breaker with two failures on record
  keeps them over a successful call, and an OPEN breaker whose timeout has elapsed is
  closed with the count at 0 by a successful call.
\<close>

theorem closed_success_leaves_breaker_witness:
  "(state partial_breaker = CLOSED
      \<and> call default_settings partial_breaker returns_true \<lparr>time_time = 20\<rparr>
          = ((Inr True, partial_breaker), \<lparr>time_time = 20\<rparr>))
   \<and> (failure_count tripped_breaker = 5
      \<and> call default_settings tripped_breaker returns_true \<lparr>time_time = 100\<rparr>
          = ((Inr True, tripped_breaker\<lparr>state := CLOSED, failure_count := 0\<rparr>),
             \<lparr>time_time = 100\<rparr>)
      \<and> (gate tripped_breaker 100 :: unit call_error + CircuitBreaker)
          = Inr (tripped_breaker\<lparr>state := HALF_OPEN\<rparr>))"
proof -
  let ?s = default_settings
  obtain res cb' w' where
    c1: "call ?s partial_breaker returns_true \<lparr>time_time = 20\<rparr> = ((res, cb'), w')"
    by (metis prod.exhaust)
  have r1: "res = Inr True" and w1: "w' = \<lparr>time_time = 20\<rparr>"
    using c1
    by (simp_all add: call_def gate_def returns_true_def partial_breaker_def init_def
        default_settings_def int_or_def)
  have s1: "state partial_breaker = CLOSED"
    by (simp add: partial_breaker_def init_def)
  from closed_success_leaves_breaker
    [of partial_breaker ?s returns_true "\<lparr>time_time = 20\<rparr>" True cb' w']
    s1 c1 r1 have "cb' = partial_breaker" by blast
  with c1 r1 w1 s1 have first:
    "state partial_breaker = CLOSED
      \<and> call ?s partial_breaker returns_true \<lparr>time_time = 20\<rparr>
          = ((Inr True, partial_breaker), \<lparr>time_time = 20\<rparr>)"
    by simp
  have g: "(gate tripped_breaker 100 :: unit call_error + CircuitBreaker)
      = Inr (tripped_breaker\<lparr>state := HALF_OPEN\<rparr>)"
    by (simp add: gate_def tripped_breaker_def init_def default_settings_def int_or_def)
  have c2: "call ?s tripped_breaker returns_true \<lparr>time_time = 100\<rparr>
      = ((Inr True, tripped_breaker\<lparr>state := CLOSED, failure_count := 0\<rparr>),
         \<lparr>time_time = 100\<rparr>)"
    by (simp add: call_def g returns_true_def on_success_def)
       (simp add: default_settings_def)
  have n: "failure_count tripped_breaker = 5"
    by (simp add: tripped_breaker_def)
  from first n c2 g show ?thesis by simp
qed

subsection \<open>OPEN and HALF\_OPEN only at the threshold\<close>

text \<open>
  C10. A breaker that starts CLOSED (as \<open>init\<close> leaves it, with a count of 0) and
  evolves through calls has, whenever its state is OPEN or HALF\_OPEN, a
  \<open>failure_count\<close> of at least \<open>failure_threshold\<close>. Hence a failure handled after
  the check of lines 45-50 has let the call through sets the state to OPEN: the test
  of line 72 succeeds. The theorem holds for every threshold and starting count, and
  for histories that contain resets as well.
\<close>

theorem open_only_at_threshold:
  assumes "state cb0 = CLOSED"
    and "state (run s cb0 steps) = OPEN \<or> state (run s cb0 steps) = HALF_OPEN"
  shows "failure_threshold cb0 \<le> int (failure_count (run s cb0 steps))
    \<and> (\<forall>now cb1 t. (gate (run s cb0 steps) now :: unit call_error + CircuitBreaker) = Inr cb1
          \<longrightarrow> state (on_failure cb1 t) = OPEN)"
proof -
  let ?cb = "run s cb0 steps"
  have inv: "breaker_inv ?cb" using assms(1) by (simp add: breaker_inv_closed breaker_inv_run)
  with assms(2) have le: "failure_threshold ?cb \<le> int (failure_count ?cb)"
    by (auto simp: breaker_inv_def)
  have "state (on_failure cb1 t) = OPEN"
    if g: "(gate ?cb now :: unit call_error + CircuitBreaker) = Inr cb1" for now cb1 t
    using le gate_fields(1,4) [OF g] by (simp add: on_failure_def Let_def)
  with le show ?thesis by (simp add: run_fixed_fields)
qed
theorem open_only_at_threshold_witness:
  "state (init default_settings ''tmdb-api'' (Some 1) None) = CLOSED
   \<and> state (run default_settings (init default_settings ''tmdb-api'' (Some 1) None)
        one_failure) = OPEN
   \<and> failure_count (run default_settings (init default_settings ''tmdb-api'' (Some 1) None)
        one_failure) = 1
   \<and> state (on_failure
        ((run default_settings (init default_settings ''tmdb-api'' (Some 1) None)
            one_failure)\<lparr>state := HALF_OPEN\<rparr>) 100) = OPEN"
proof -
  let ?fresh = "init default_settings ''tmdb-api'' (Some 1) None"
  let ?cb = "run default_settings ?fresh one_failure"
  have cb: "?cb = ?fresh\<lparr>failure_count := 1, last_failure_time := Some 0, state := OPEN\<rparr>"
    by (simp add: one_failure_def call_def gate_def always_raises_def on_failure_def
        init_def int_or_def default_settings_def Let_def)
  have s0: "state ?fresh = CLOSED" by (simp add: init_def)
  have s1: "state ?cb = OPEN" by (simp add: cb)
  have g: "(gate ?cb 100 :: unit call_error + CircuitBreaker) = Inr (?cb\<lparr>state := HALF_OPEN\<rparr>)"
    unfolding cb by (simp add: gate_def init_def int_or_def default_settings_def)
  from open_only_at_threshold [of ?fresh default_settings one_failure] s0 s1 g
  have "state (on_failure (?cb\<lparr>state := HALF_OPEN\<rparr>) 100) = OPEN" by blast
  moreover have "failure_count ?cb = 1" by (simp add: cb)
  ultimately show ?thesis using s0 s1 by simp
qed

subsection \<open>Consecutive failures open the circuit\<close>

lemma failing_step_open:
  fixes x :: "('e, 'a, 'm) step"
  assumes "CIRCUIT_BREAKER_ENABLED s" and "state c = OPEN"
    and "failure_threshold c \<le> int (failure_count c)" and "last_failure_time c \<noteq> None"
    and "fails s c x"
  shows "state (step_result s c x) = OPEN
    \<and> failure_threshold c \<le> int (failure_count (step_result s c x))
    \<and> last_failure_time (step_result s c x) \<noteq> None"
proof (cases x)
  case (Call func w)
  obtain res w' where f: "func w = (res, w')" by (cases "func w")
  from assms Call f show ?thesis
    by (cases res)
       (auto simp: call_def gate_def on_failure_def on_success_def Let_def
             split: if_splits option.splits)
next
  case Reset
  with assms show ?thesis by simp
qed

lemma failing_step_closed:
  fixes x :: "('e, 'a, 'm) step"
  assumes "CIRCUIT_BREAKER_ENABLED s" and "state c = CLOSED" and "fails s c x"
  shows "(state (step_result s c x) = OPEN
      \<and> failure_threshold c \<le> int (failure_count (step_result s c x))
      \<and> last_failure_time (step_result s c x) \<noteq> None)
    \<or> (state (step_result s c x) = CLOSED
      \<and> failure_count (step_result s c x) = failure_count c + 1
      \<and> int (failure_count (step_result s c x)) < failure_threshold c)"
proof (cases x)
  case (Call func w)
  obtain res w' where f: "func w = (res, w')" by (cases "func w")
  from assms Call f show ?thesis
    by (cases res)
       (auto simp: call_def gate_def on_failure_def on_success_def Let_def
             split: if_splits option.splits)
next
  case Reset
  with assms show ?thesis by simp
qed

lemma failing_steps:
  fixes xs :: "('e, 'a, 'm) step list"
  assumes en: "CIRCUIT_BREAKER_ENABLED s" and cl: "state cb = CLOSED"
  shows "all_fail s cb xs \<Longrightarrow>
    (state (run s cb xs) = OPEN
      \<and> failure_threshold cb \<le> int (failure_count (run s cb xs))
      \<and> last_failure_time (run s cb xs) \<noteq> None)
    \<or> (state (run s cb xs) = CLOSED
      \<and> failure_count (run s cb xs) = failure_count cb + length xs
      \<and> (xs \<noteq> [] \<longrightarrow> int (failure_count (run s cb xs)) < failure_threshold cb))"
proof (induction xs rule: rev_induct)
  case Nil
  with cl show ?case by simp
next
  case (snoc x xs)
  let ?c = "run s cb xs"
  from snoc.prems have af: "all_fail s cb xs" and fx: "fails s ?c x"
    by (simp_all add: all_fail_append)
  have thr: "failure_threshold ?c = failure_threshold cb" by (simp add: run_fixed_fields)
  have r: "run s cb (xs @ [x]) = step_result s ?c x" by (simp add: run_append)
  from snoc.IH [OF af] show ?case
  proof (elim disjE conjE)
    assume "state ?c = OPEN" "failure_threshold cb \<le> int (failure_count ?c)"
      "last_failure_time ?c \<noteq> None"
    with failing_step_open [OF en _ _ _ fx] thr show ?thesis by (simp add: r)
  next
    assume "state ?c = CLOSED" and n: "failure_count ?c = failure_count cb + length xs"
    with failing_step_closed [OF en _ fx] thr n show ?thesis by (auto simp: r)
  qed
qed

lemma run_two_failures: "run default_settings threshold_two two_failures = opened_breaker"
  by (simp add: two_failures_def threshold_two_def opened_breaker_def call_def gate_def
      counted_failure_def on_failure_def init_def int_or_def default_settings_def Let_def)

lemma all_fail_two_failures: "all_fail default_settings threshold_two two_failures"
  by (simp add: two_failures_def threshold_two_def call_def gate_def
      counted_failure_def on_failure_def init_def int_or_def default_settings_def Let_def)

lemma disabled_step_closed:
  fixes x :: "('e, 'a, 'm) step"
  assumes "\<not> CIRCUIT_BREAKER_ENABLED s" and "state cb = CLOSED"
  shows "state (step_result s cb x) = CLOSED"
proof (cases x)
  case (Call func w)
  with assms show ?thesis
    by (simp add: call_def split: prod.splits sum.splits)
next
  case Reset
  then show ?thesis by (simp add: reset_def)
qed

lemma disabled_run_closed:
  fixes xs :: "('e, 'a, 'm) step list"
  assumes "\<not> CIRCUIT_BREAKER_ENABLED s"
  shows "state cb = CLOSED \<Longrightarrow> state (run s cb xs) = CLOSED"
  by (induction xs arbitrary: cb) (simp_all add: disabled_step_closed [OF assms])

text \<open>
  C1, as stated, fails on a breaker that the configuration disables
  (\<open>CIRCUIT_BREAKER_ENABLED\<close> false): \<open>call\<close> then awaits the operation and tracks
  nothing. Two failing calls on a CLOSED breaker with threshold 2 leave it as it was,
  and the call after them runs the operation again.
\<close>

theorem disabled_breaker_never_opens:
  "state threshold_two = CLOSED
   \<and> all_fail bypass_settings threshold_two two_failures
   \<and> failure_threshold threshold_two = 2 \<and> length two_failures = 2
   \<and> run bypass_settings threshold_two two_failures = threshold_two
   \<and> call bypass_settings threshold_two counted_failure \<lparr>time_time = 2, invocations = 2\<rparr>
      = ((Inl (Raised ()), threshold_two), \<lparr>time_time = 2, invocations = 3\<rparr>)"
  by (simp add: bypass_settings_def default_settings_def two_failures_def call_def
      counted_failure_def threshold_two_def init_def int_or_def)

text \<open>
  C1, amended. With the breaker enabled: after N consecutive failing calls on a CLOSED breaker,
  N at least \<open>failure_threshold\<close> and at least 1 (which a positive threshold, as
  the data model has it, implies), the state is OPEN and a failure time \<open>t\<close> is
  recorded; every call made at a time \<open>now\<close>
  with \<open>now - t < timeout\<close> raises the fast-fail error, whatever the operation is,
  and leaves the breaker and the world as they were: the operation has not run. The
  breaker being unchanged, the same holds for the call after it.
\<close>

theorem consecutive_failures_open:
  fixes steps :: "('e, 'a, 'm) step list" and cb :: CircuitBreaker
  assumes "CIRCUIT_BREAKER_ENABLED s" and "state cb = CLOSED"
    and "steps \<noteq> []"
    and "all_fail s cb steps" and "failure_threshold cb \<le> int (length steps)"
  shows "state (run s cb steps) = OPEN
    \<and> (\<exists>t. last_failure_time (run s cb steps) = Some t
        \<and> (\<forall>(func :: ('e, 'a, 'm) operation) w.
              time_time w - t < real_of_int (timeout cb) \<longrightarrow>
              call s (run s cb steps) func w
                = ((Inl (CircuitOpen (name cb)), run s cb steps), w)))"
proof -
  let ?c = "run s cb steps"
  note ne = assms(3)
  from failing_steps [OF assms(1,2,4)] ne assms(5)
  have op: "state ?c = OPEN" and "last_failure_time ?c \<noteq> None" by auto
  then obtain t where t: "last_failure_time ?c = Some t" by auto
  have "call s ?c func w = ((Inl (CircuitOpen (name cb)), ?c), w)"
    if "time_time w - t < real_of_int (timeout cb)" for func :: "('e, 'a, 'm) operation" and w
    using that assms(1) op t
    by (simp add: call_def gate_def run_fixed_fields)
  with op t show ?thesis by blast
qed

theorem consecutive_failures_open_witness:
  "CIRCUIT_BREAKER_ENABLED default_settings \<and> state threshold_two = CLOSED
   \<and> failure_threshold threshold_two = 2 \<and> length two_failures = 2
   \<and> two_failures \<noteq> []
   \<and> all_fail default_settings threshold_two two_failures
   \<and> state (run default_settings threshold_two two_failures) = OPEN
   \<and> call default_settings (run default_settings threshold_two two_failures)
        counted_failure \<lparr>time_time = 30, invocations = 2\<rparr>
      = ((Inl (CircuitOpen ''tmdb-api''), run default_settings threshold_two two_failures),
         \<lparr>time_time = 30, invocations = 2\<rparr>)"
proof -
  let ?s = default_settings
  have en: "CIRCUIT_BREAKER_ENABLED ?s" by (simp add: default_settings_def)
  have cl: "state threshold_two = CLOSED" by (simp add: threshold_two_def init_def)
  have th: "failure_threshold threshold_two = 2"
    by (simp add: threshold_two_def init_def int_or_def)
  have ln: "length two_failures = 2" by (simp add: two_failures_def)
  have nm: "name threshold_two = ''tmdb-api''" by (simp add: threshold_two_def init_def)
  have tm: "timeout threshold_two = 60"
    by (simp add: threshold_two_def init_def int_or_def default_settings_def)
  have lf: "last_failure_time (run ?s threshold_two two_failures) = Some 1"
    by (simp add: run_two_failures opened_breaker_def)
  have ne: "two_failures \<noteq> []" by (simp add: two_failures_def)
  from consecutive_failures_open [of ?s threshold_two two_failures, OF en cl ne all_fail_two_failures]
    th ln
  have op: "state (run ?s threshold_two two_failures) = OPEN"
    and "\<exists>t. last_failure_time (run ?s threshold_two two_failures) = Some t
        \<and> (\<forall>(func :: (unit, unit, unit counted_world_ext) operation) w.
              time_time w - t < real_of_int (timeout threshold_two) \<longrightarrow>
              call ?s (run ?s threshold_two two_failures) func w
                = ((Inl (CircuitOpen (name threshold_two)),
                    run ?s threshold_two two_failures), w))"
    by simp_all
  with lf have "\<forall>(func :: (unit, unit, unit counted_world_ext) operation) w.
      time_time w - 1 < real_of_int (timeout threshold_two) \<longrightarrow>
      call ?s (run ?s threshold_two two_failures) func w
        = ((Inl (CircuitOpen (name threshold_two)), run ?s threshold_two two_failures), w)"
    by simp
  then have "call ?s (run ?s threshold_two two_failures) counted_failure
        \<lparr>time_time = 30, invocations = 2\<rparr>
      = ((Inl (CircuitOpen ''tmdb-api''), run ?s threshold_two two_failures),
         \<lparr>time_time = 30, invocations = 2\<rparr>)"
    by (simp add: tm nm)
  with en cl th ln ne all_fail_two_failures op show ?thesis by simp
qed

subsection \<open>The probe after the timeout\<close>

text \<open>
  C2. Take a breaker that is OPEN after any history of calls and resets that started
  CLOSED, and \<open>t\<close> its last failure time. A call at a time \<open>now\<close> with
  \<open>now - t \<ge> timeout\<close> passes the check, which sets HALF\_OPEN, and runs the
  operation once. If the operation returns, the breaker is CLOSED with
  \<open>failure_count\<close> 0. If it raises, the breaker is OPEN again, the count is one
  higher and \<open>last_failure_time\<close> is the time read in the handler, so the timeout
  window starts again there.
\<close>

theorem open_timeout_probe:
  fixes steps :: "('e, 'a, 'm) step list"
  assumes closed: "state cb0 = CLOSED"
    and history: "cb = run s cb0 steps" and opened: "state cb = OPEN"
  shows "\<exists>t. last_failure_time cb = Some t
    \<and> (\<forall>(func :: ('x, 'b, 'n) operation) w.
          time_time w - t \<ge> real_of_int (timeout cb) \<longrightarrow>
          (gate cb (time_time w) :: 'x call_error + CircuitBreaker)
            = Inr (cb\<lparr>state := HALF_OPEN\<rparr>)
          \<and> call s cb func w =
             (case func w of
                (Inr r, w') \<Rightarrow> ((Inr r, cb\<lparr>state := CLOSED, failure_count := 0\<rparr>), w')
              | (Inl e, w') \<Rightarrow>
                  ((Inl (Raised e),
                    cb\<lparr>failure_count := failure_count cb + 1,
                       last_failure_time := Some (time_time w'),
                       state := OPEN\<rparr>), w')))"
proof -
  have en: "CIRCUIT_BREAKER_ENABLED s"
    using disabled_run_closed [of s cb0 steps] closed history opened by auto
  have "breaker_inv cb"
    using closed history by (simp add: breaker_inv_closed breaker_inv_run)
  with opened have le: "failure_threshold cb \<le> int (failure_count cb)"
    and "last_failure_time cb \<noteq> None"
    by (auto simp: breaker_inv_def)
  then obtain t where t: "last_failure_time cb = Some t" by auto
  have "(gate cb (time_time w) :: 'x call_error + CircuitBreaker)
            = Inr (cb\<lparr>state := HALF_OPEN\<rparr>)
          \<and> call s cb func w =
             (case func w of
                (Inr r, w') \<Rightarrow> ((Inr r, cb\<lparr>state := CLOSED, failure_count := 0\<rparr>), w')
              | (Inl e, w') \<Rightarrow>
                  ((Inl (Raised e),
                    cb\<lparr>failure_count := failure_count cb + 1,
                       last_failure_time := Some (time_time w'),
                       state := OPEN\<rparr>), w'))"
    if "time_time w - t \<ge> real_of_int (timeout cb)"
    for func :: "('x, 'b, 'n) operation" and w
  proof -
    have g: "(gate cb (time_time w) :: 'x call_error + CircuitBreaker)
        = Inr (cb\<lparr>state := HALF_OPEN\<rparr>)"
      using that opened t by (simp add: gate_def)
    obtain res w' where f: "func w = (res, w')" by (cases "func w")
    show ?thesis
      using en le
      by (cases res) (simp_all add: g f call_def on_success_def on_failure_def Let_def)
  qed
  with t show ?thesis by blast
qed

theorem open_timeout_probe_witness:
  "CIRCUIT_BREAKER_ENABLED default_settings \<and> state threshold_two = CLOSED
   \<and> state (run default_settings threshold_two two_failures) = OPEN
   \<and> last_failure_time (run default_settings threshold_two two_failures) = Some 1
   \<and> call default_settings (run default_settings threshold_two two_failures)
        counted_success \<lparr>time_time = 61, invocations = 2\<rparr>
      = ((Inr True, opened_breaker\<lparr>state := CLOSED, failure_count := 0\<rparr>),
         \<lparr>time_time = 61, invocations = 3\<rparr>)
   \<and> call default_settings (run default_settings threshold_two two_failures)
        counted_failure_late \<lparr>time_time = 61, invocations = 2\<rparr>
      = ((Inl (Raised ()),
          opened_breaker\<lparr>failure_count := 3, last_failure_time := Some 66, state := OPEN\<rparr>),
         \<lparr>time_time = 66, invocations = 3\<rparr>)"
proof -
  let ?s = default_settings
  let ?c = "run ?s threshold_two two_failures"
  have en: "CIRCUIT_BREAKER_ENABLED ?s" by (simp add: default_settings_def)
  have cl: "state threshold_two = CLOSED" by (simp add: threshold_two_def init_def)
  have op: "state ?c = OPEN" by (simp add: run_two_failures opened_breaker_def)
  have lf: "last_failure_time ?c = Some 1" by (simp add: run_two_failures opened_breaker_def)
  have tm: "timeout ?c = 60"
    unfolding run_two_failures
    by (simp add: opened_breaker_def threshold_two_def init_def int_or_def
        default_settings_def)
  have fc: "failure_count ?c = 2" by (simp add: run_two_failures opened_breaker_def)
  from open_timeout_probe [where ?'x = unit and ?'b = bool and ?'n = "unit counted_world_ext",
      OF cl refl op] lf
  have all: "\<forall>(func :: (unit, bool, unit counted_world_ext) operation) w.
          time_time w - 1 \<ge> real_of_int (timeout ?c) \<longrightarrow>
          call ?s ?c func w =
             (case func w of
                (Inr r, w') \<Rightarrow> ((Inr r, ?c\<lparr>state := CLOSED, failure_count := 0\<rparr>), w')
              | (Inl e, w') \<Rightarrow>
                  ((Inl (Raised e),
                    ?c\<lparr>failure_count := failure_count ?c + 1,
                       last_failure_time := Some (time_time w'),
                       state := OPEN\<rparr>), w'))"
    by auto
  have a: "call ?s ?c counted_success \<lparr>time_time = 61, invocations = 2\<rparr>
      = ((Inr True, ?c\<lparr>state := CLOSED, failure_count := 0\<rparr>),
         \<lparr>time_time = 61, invocations = 3\<rparr>)"
    using all [rule_format, of "\<lparr>time_time = 61, invocations = 2\<rparr>" counted_success]
    by (simp add: tm counted_success_def)
  have b: "call ?s ?c counted_failure_late \<lparr>time_time = 61, invocations = 2\<rparr>
      = ((Inl (Raised ()),
          ?c\<lparr>failure_count := 3, last_failure_time := Some 66, state := OPEN\<rparr>),
         \<lparr>time_time = 66, invocations = 3\<rparr>)"
    using all [rule_format, of "\<lparr>time_time = 61, invocations = 2\<rparr>" counted_failure_late]
    by (simp add: tm fc counted_failure_late_def)
  from en cl op lf a b show ?thesis by (simp add: run_two_failures)
qed

section \<open>Aggregator: properties\<close>

subsection \<open>Enrichment\<close>

text \<open>
  C4. With favorites \<open>{550: {rating: 5}}\<close> and watchlist \<open>{155: {}}\<close>, a movie
  whose id is 550 is built with \<open>is_favorite\<close> true, \<open>user_rating\<close> 5 and
  \<open>is_in_watchlist\<close> false, and a movie whose id is 155 with \<open>is_favorite\<close>
  false, \<open>user_rating\<close> \<open>None\<close> and \<open>is_in_watchlist\<close> true, whatever other
  fields the movies carry. In general the enriched movie that \<open>_enrich_movie\<close>
  returns carries the movie's fields, and its annotations are the lookups of the
  movie's id: membership in each mapping, and the favorite's rating, \<open>None\<close> when
  the id is not a favorite or the favorite has no rating.
\<close>

theorem enrich_movie_annotations:
  "(dict_get movie ''id'' JNull = JInt 550 \<and> reserved_free movie \<longrightarrow>
      enrich_movie pd movie [(KNum 550, [(''rating'', JInt 5)])] [(KNum 155, [])]
        = new_model (accepts_EnrichedMovie pd)
            \<lparr>movie_fields = movie, is_favorite = True, is_in_watchlist = False,
             user_rating = JInt 5\<rparr>)
   \<and> (dict_get movie ''id'' JNull = JInt 155 \<and> reserved_free movie \<longrightarrow>
      enrich_movie pd movie [(KNum 550, [(''rating'', JInt 5)])] [(KNum 155, [])]
        = new_model (accepts_EnrichedMovie pd)
            \<lparr>movie_fields = movie, is_favorite = False, is_in_watchlist = True,
             user_rating = JNull\<rparr>)
   \<and> (enrich_movie pd movie favorites watchlist = Inr e \<longrightarrow>
        (\<exists>k. hash_key (dict_get movie ''id'' JNull) = Inr k
          \<and> movie_fields e = movie
          \<and> is_favorite e = (k \<in> fst ` set favorites)
          \<and> is_in_watchlist e = (k \<in> fst ` set watchlist)
          \<and> user_rating e =
              (case map_of favorites k of
                 None \<Rightarrow> JNull
               | Some fav \<Rightarrow> (case map_of fav ''rating'' of None \<Rightarrow> JNull | Some r \<Rightarrow> r))))"
proof (intro conjI impI)
  assume "dict_get movie ''id'' JNull = JInt 550 \<and> reserved_free movie"
  then show "enrich_movie pd movie [(KNum 550, [(''rating'', JInt 5)])] [(KNum 155, [])]
        = new_model (accepts_EnrichedMovie pd)
            \<lparr>movie_fields = movie, is_favorite = True, is_in_watchlist = False,
             user_rating = JInt 5\<rparr>"
    by (simp add: enrich_movie_def hash_key_def reserved_free_def dict_get_def)
next
  assume "dict_get movie ''id'' JNull = JInt 155 \<and> reserved_free movie"
  then show "enrich_movie pd movie [(KNum 550, [(''rating'', JInt 5)])] [(KNum 155, [])]
        = new_model (accepts_EnrichedMovie pd)
            \<lparr>movie_fields = movie, is_favorite = False, is_in_watchlist = True,
             user_rating = JNull\<rparr>"
    by (simp add: enrich_movie_def hash_key_def reserved_free_def dict_get_def)
next
  assume a: "enrich_movie pd movie favorites watchlist = Inr e"
  then obtain k where k: "hash_key (dict_get movie ''id'' JNull) = Inr k"
    by (cases "hash_key (dict_get movie ''id'' JNull)") (simp_all add: enrich_movie_def)
  from a k have e: "e = \<lparr>movie_fields = movie,
                  is_favorite = (map_of favorites k \<noteq> None),
                  is_in_watchlist = (map_of watchlist k \<noteq> None),
                  user_rating =
                    dict_get (case map_of favorites k of None \<Rightarrow> [] | Some fav \<Rightarrow> fav)
                      ''rating'' JNull\<rparr>"
    by (auto simp: enrich_movie_def new_model_def split: if_splits)
  have "user_rating e =
              (case map_of favorites k of
                 None \<Rightarrow> JNull
               | Some fav \<Rightarrow> (case map_of fav ''rating'' of None \<Rightarrow> JNull | Some r \<Rightarrow> r))"
    by (simp add: e dict_get_def split: option.splits)
  moreover have "is_favorite e = (k \<in> fst ` set favorites)"
    by (simp add: e map_of_eq_None_iff)
  moreover have "is_in_watchlist e = (k \<in> fst ` set watchlist)"
    by (simp add: e map_of_eq_None_iff)
  moreover have "movie_fields e = movie" by (simp add: e)
  ultimately show "\<exists>k. hash_key (dict_get movie ''id'' JNull) = Inr k
          \<and> movie_fields e = movie
          \<and> is_favorite e = (k \<in> fst ` set favorites)
          \<and> is_in_watchlist e = (k \<in> fst ` set watchlist)
          \<and> user_rating e =
              (case map_of favorites k of
                 None \<Rightarrow> JNull
               | Some fav \<Rightarrow> (case map_of fav ''rating'' of None \<Rightarrow> JNull | Some r \<Rightarrow> r))"
    using k by blast
qed

theorem enrich_movie_annotations_witness:
  "dict_get fight_club ''id'' JNull = JInt 550 \<and> reserved_free fight_club
   \<and> enrich_movie accept_all fight_club example_favorites example_watchlist
       = Inr \<lparr>movie_fields = fight_club, is_favorite = True, is_in_watchlist = False,
              user_rating = JInt 5\<rparr>
   \<and> dict_get dark_knight ''id'' JNull = JInt 155 \<and> reserved_free dark_knight
   \<and> enrich_movie accept_all dark_knight example_favorites example_watchlist
       = Inr \<lparr>movie_fields = dark_knight, is_favorite = False, is_in_watchlist = True,
              user_rating = JNull\<rparr>
   \<and> is_favorite \<lparr>movie_fields = fight_club, is_favorite = True, is_in_watchlist = False,
              user_rating = JInt 5\<rparr> = (KNum 550 \<in> fst ` set example_favorites)"
proof -
  have i1: "dict_get fight_club ''id'' JNull = JInt 550 \<and> reserved_free fight_club"
    by (simp add: fight_club_def dict_get_def reserved_free_def)
  have i2: "dict_get dark_knight ''id'' JNull = JInt 155 \<and> reserved_free dark_knight"
    by (simp add: dark_knight_def dict_get_def reserved_free_def)
  have acc: "new_model (accepts_EnrichedMovie accept_all) x = Inr x" for x
    by (simp add: new_model_def accept_all_def)
  from enrich_movie_annotations [where movie = fight_club and pd = accept_all] i1
  have r1: "enrich_movie accept_all fight_club example_favorites example_watchlist
       = Inr \<lparr>movie_fields = fight_club, is_favorite = True, is_in_watchlist = False,
              user_rating = JInt 5\<rparr>"
    by (simp add: acc example_favorites_def example_watchlist_def)
  from enrich_movie_annotations [where movie = dark_knight and pd = accept_all] i2
  have r2: "enrich_movie accept_all dark_knight example_favorites example_watchlist
       = Inr \<lparr>movie_fields = dark_knight, is_favorite = False, is_in_watchlist = True,
              user_rating = JNull\<rparr>"
    by (simp add: acc example_favorites_def example_watchlist_def)
  have k: "hash_key (dict_get fight_club ''id'' JNull) = Inr (KNum 550)"
    by (simp add: fight_club_def dict_get_def hash_key_def)
  from enrich_movie_annotations [where movie = fight_club and pd = accept_all
      and favorites = example_favorites and watchlist = example_watchlist
      and e = "\<lparr>movie_fields = fight_club, is_favorite = True, is_in_watchlist = False,
              user_rating = JInt 5\<rparr>"] r1 k
  have r3: "is_favorite \<lparr>movie_fields = fight_club, is_favorite = True, is_in_watchlist = False,
              user_rating = JInt 5\<rparr> = (KNum 550 \<in> fst ` set example_favorites)"
    by auto
  from i1 i2 r1 r2 r3 show ?thesis by blast
qed

subsection \<open>Rounding to the nearest float\<close>

text \<open>
  The nearest float is within half a unit in the last place of the real, is the real
  itself when that is a float, and is finite for a real below \<open>2 ^ 1023\<close> in
  magnitude.
\<close>

lemma binade_eq:
  assumes "2 powi k \<le> \<bar>x\<bar>" and "\<bar>x\<bar> < 2 powi (k + 1)" and "- 1022 \<le> k"
  shows "binade x = k"
proof -
  have pos: "0 < \<bar>x\<bar>" using assms(1) by (smt (verit) zero_less_power_int)
  have p: "(2::real) powr (real_of_int j) = 2 powi j" for j
    by (simp add: powr_real_of_int')
  note p1 = p [of k]
  from p [of "k + 1"] have p2: "(2::real) powr (real_of_int k + 1) = 2 powi (k + 1)"
    by simp
  have "\<lfloor>log 2 \<bar>x\<bar>\<rfloor> = k"
    using assms(1,2) pos
    by (subst floor_log_eq_powr_iff) (simp_all add: p1 p2)
  with assms(3) show ?thesis by (simp add: binade_def)
qed

lemma ulp_pos: "0 < ulp x"
  by (simp add: ulp_def)

lemma round_half_even_int: "round_half_even (of_int n) = n"
  by (simp add: round_half_even_def)



lemma nearest_double_exact:
  assumes "is_double x"
  shows "nearest_double x = Float x"
proof (cases "x = 0")
  case True
  then show ?thesis by (simp add: nearest_double_def)
next
  case False
  from assms obtain n where n: "x / ulp x = of_int n"
    by (auto simp: is_double_def Ints_def)
  then have x: "of_int n * ulp x = x" using ulp_pos [of x] by (simp add: field_simps)
  from assms have "\<bar>x\<bar> < 2 ^ 1024" by (simp add: is_double_def)
  then have "\<not> 2 ^ 1024 \<le> x" and "\<not> x \<le> - (2 ^ 1024)" by auto
  with False show ?thesis
    by (simp add: nearest_double_def Let_def n round_half_even_int x)
qed

lemma is_double_9_2: "is_double (9 / 2)"
proof -
  have b: "binade (9 / 2) = 2"
    by (rule binade_eq) (simp_all add: power_int_def)
  have u: "ulp (9 / 2) = 1 / 2 ^ 50"
    by (simp add: ulp_def b power_int_def power_one_over)
  have "(9 / 2) / ulp (9 / 2) = of_int (9 * 2 ^ 49)"
    by (simp add: u)
  then have "(9 / 2) / ulp (9 / 2) \<in> \<int>" by (simp only: Ints_of_int)
  moreover have "\<bar>9 / 2 :: real\<bar> < 2 ^ 1024" by simp
  ultimately show ?thesis by (simp add: is_double_def)
qed

lemma int_truediv_9_2: "int_truediv 9 2 = Inr (Float (9 / 2))"
  using nearest_double_exact [OF is_double_9_2] by (simp add: int_truediv_def)






subsection \<open>The responses of the endpoints\<close>






























subsection \<open>Partial failure\<close>




subsection \<open>Average rating\<close>



section \<open>Response cache and dependency client: properties\<close>

subsection \<open>Cache round trip\<close>

text \<open>
  C5. \<open>get\<close> on a key that the store does not hold, or whose entry has expired,
  returns \<open>None\<close>. With the cache enabled and connected and the store answering,
  \<open>set(key, value, ttl)\<close> followed by \<open>get(key)\<close> at a later time within the
  time to live (\<open>ttl\<close>, or \<open>CACHE_TTL\<close> when \<open>ttl\<close> is \<open>None\<close> or 0), with no
  other write in between, returns the value, for every value that the JSON codec
  writes as a text that is not empty and reads back.
\<close>

theorem cache_round_trip:
  fixes w w' :: "'m redis_world_scheme"
  shows
  "(redis_store w key = None \<longrightarrow> cache_get c cm key w = JNull)
   \<and> (redis_store w key = Some (payload, expires_at) \<and> expires_at \<le> time_time w
        \<longrightarrow> cache_get c cm key w = JNull)
   \<and> (enabled cm \<and> redis_client cm \<and> redis_up w \<and> redis_up w'
        \<and> json_dumps c v \<noteq> [] \<and> json_loads c (json_dumps c v) = Some v
        \<and> redis_store w' = redis_store (cache_set c s cm key v ttl w)
        \<and> time_time w \<le> time_time w'
        \<and> time_time w' < time_time w + real_of_int (int_or ttl (CACHE_TTL s))
        \<longrightarrow> cache_get c cm key w' = v)"
proof (intro conjI impI)
  assume "redis_store w key = None"
  then show "cache_get c cm key w = JNull"
    by (simp add: cache_get_def redis_GET_def)
next
  assume "redis_store w key = Some (payload, expires_at) \<and> expires_at \<le> time_time w"
  then show "cache_get c cm key w = JNull"
    by (simp add: cache_get_def redis_GET_def)
next
  assume a: "enabled cm \<and> redis_client cm \<and> redis_up w \<and> redis_up w'
        \<and> json_dumps c v \<noteq> [] \<and> json_loads c (json_dumps c v) = Some v
        \<and> redis_store w' = redis_store (cache_set c s cm key v ttl w)
        \<and> time_time w \<le> time_time w'
        \<and> time_time w' < time_time w + real_of_int (int_or ttl (CACHE_TTL s))"
  then have pos: "0 < int_or ttl (CACHE_TTL s)" by auto
  with a have "redis_store w' key
      = Some (json_dumps c v, time_time w + real_of_int (int_or ttl (CACHE_TTL s)))"
    by (simp add: cache_set_def redis_SETEX_def)
  with a show "cache_get c cm key w' = v"
    by (simp add: cache_get_def redis_GET_def)
qed

theorem cache_round_trip_witness:
  "redis_store empty_redis ''genres:movies'' = None
   \<and> cache_get atoms_codec live_cache ''genres:movies'' empty_redis = JNull
   \<and> redis_store (redis_with_true\<lparr>time_time := 300\<rparr>) ''genres:movies'' = Some (''true'', 300)
   \<and> cache_get atoms_codec live_cache ''genres:movies'' (redis_with_true\<lparr>time_time := 300\<rparr>)
       = JNull
   \<and> cache_get atoms_codec live_cache ''genres:movies''
        ((cache_set atoms_codec default_settings live_cache ''genres:movies'' (JBool True) None
            empty_redis)\<lparr>time_time := 299\<rparr>)
       = JBool True"
proof -
  let ?k = "''genres:movies''"
  let ?w1 = "cache_set atoms_codec default_settings live_cache ?k (JBool True) None empty_redis"
  have n: "redis_store empty_redis ?k = None" by (simp add: empty_redis_def)
  from cache_round_trip [where w = empty_redis and key = "?k" and c = atoms_codec
      and cm = live_cache] n
  have a: "cache_get atoms_codec live_cache ?k empty_redis = JNull" by blast
  have x: "redis_store (redis_with_true\<lparr>time_time := 300\<rparr>) ?k = Some (''true'', 300)
      \<and> 300 \<le> time_time (redis_with_true\<lparr>time_time := 300\<rparr>)"
    by (simp add: redis_with_true_def)
  from cache_round_trip [where w = "redis_with_true\<lparr>time_time := 300\<rparr>" and key = "?k"
      and c = atoms_codec and cm = live_cache and payload = "''true''" and expires_at = 300] x
  have b: "cache_get atoms_codec live_cache ?k (redis_with_true\<lparr>time_time := 300\<rparr>) = JNull"
    by blast
  have up: "redis_up (?w1\<lparr>time_time := 299\<rparr>)"
    by (simp add: cache_set_def redis_SETEX_def live_cache_def empty_redis_def int_or_def
        default_settings_def)
  have h: "enabled live_cache \<and> redis_client live_cache \<and> redis_up empty_redis
        \<and> redis_up (?w1\<lparr>time_time := 299\<rparr>)
        \<and> json_dumps atoms_codec (JBool True) \<noteq> []
        \<and> json_loads atoms_codec (json_dumps atoms_codec (JBool True)) = Some (JBool True)
        \<and> redis_store (?w1\<lparr>time_time := 299\<rparr>) = redis_store ?w1
        \<and> time_time empty_redis \<le> time_time (?w1\<lparr>time_time := 299\<rparr>)
        \<and> time_time (?w1\<lparr>time_time := 299\<rparr>)
            < time_time empty_redis + real_of_int (int_or None (CACHE_TTL default_settings))"
    using up
    by (simp add: live_cache_def empty_redis_def atoms_codec_def int_or_def
        default_settings_def)
  from cache_round_trip [where w = empty_redis and w' = "?w1\<lparr>time_time := 299\<rparr>"
      and key = "?k" and c = atoms_codec and cm = live_cache and v = "JBool True"
      and s = default_settings and ttl = None] h
  have c: "cache_get atoms_codec live_cache ?k (?w1\<lparr>time_time := 299\<rparr>) = JBool True"
    by blast
  from n a x b c show ?thesis by blast
qed

subsection \<open>Cache hits and the breaker\<close>

text \<open>
  C6, as stated, fails when the cached value is falsy. The store holds the unexpired
  entry \<open>{}\<close> for the key and \<open>get\<close> returns the empty dict, but \<open>if cached:\<close>
  does not hold for it: the request is sent through the breaker, and its failure is
  counted.
\<close>

theorem empty_cached_value_is_refetched:
  "redis_store redis_with_empty_object ''genres:movies'' = Some (''{}'', 300)
   \<and> time_time redis_with_empty_object < 300
   \<and> cache_get atoms_codec live_cache ''genres:movies'' redis_with_empty_object = JObj []
   \<and> make_request atoms_codec default_settings live_cache fresh_breaker send_fails ''GET''
        (Some ''genres:movies'') redis_with_empty_object
      = ((Inl (Raised ()), fresh_breaker\<lparr>failure_count := 1, last_failure_time := Some 0\<rparr>),
         redis_with_empty_object\<lparr>requests_sent := 1\<rparr>)"
  by (simp add: make_request_def caching_key_def cache_get_def redis_GET_def
      redis_with_empty_object_def atoms_codec_def live_cache_def truthy_def
      through_breaker_def call_def gate_def send_fails_def on_failure_def Let_def
      fresh_breaker_def init_def int_or_def default_settings_def)

text \<open>
  C6, amended. For a GET request with a cache key that is not empty: if the cache is
  enabled and connected, the store answers and holds for the key an unexpired entry
  that decodes to a truthy value, then \<open>_make_request\<close> returns that value, whatever
  the operation that would send the request is, and the breaker and the world are
  what they were: nothing is sent, and \<open>state\<close>, \<open>failure_count\<close> and
  \<open>last_failure_time\<close> are unchanged.
\<close>

theorem cache_hit_skips_breaker:
  fixes w :: "'m redis_world_scheme" and send :: "('e, json, 'm redis_world_ext) operation"
  assumes "enabled cm" and "redis_client cm" and "redis_up w"
    and "redis_store w k = Some (payload, expires_at)" and "time_time w < expires_at"
    and "payload \<noteq> []" and "json_loads c payload = Some v" and "truthy v" and "k \<noteq> []"
  shows "make_request c s cm cb send ''GET'' (Some k) w = ((Inr v, cb), w)"
  using assms
  by (simp add: make_request_def caching_key_def cache_get_def redis_GET_def)

theorem cache_hit_skips_breaker_witness:
  "enabled live_cache \<and> redis_client live_cache \<and> redis_up redis_with_true
   \<and> redis_store redis_with_true ''genres:movies'' = Some (''true'', 300)
   \<and> time_time redis_with_true < 300
   \<and> json_loads atoms_codec ''true'' = Some (JBool True) \<and> truthy (JBool True)
   \<and> make_request atoms_codec default_settings live_cache fresh_breaker send_fails ''GET''
        (Some ''genres:movies'') redis_with_true
      = ((Inr (JBool True), fresh_breaker), redis_with_true)"
proof -
  have h1: "enabled live_cache" and h2: "redis_client live_cache"
    by (simp_all add: live_cache_def)
  have h3: "redis_up redis_with_true"
    and h4: "redis_store redis_with_true ''genres:movies'' = Some (''true'', 300)"
    and h5: "time_time redis_with_true < 300"
    by (simp_all add: redis_with_true_def)
  have h6: "''true'' \<noteq> []" by simp
  have h7: "json_loads atoms_codec ''true'' = Some (JBool True)"
    by (simp add: atoms_codec_def)
  have h8: "truthy (JBool True)" by (simp add: truthy_def)
  have h9: "''genres:movies'' \<noteq> []" by simp
  from cache_hit_skips_breaker [OF h1 h2 h3 h4 h5 h6 h7 h8 h9,
      where s = default_settings and cb = fresh_breaker and send = send_fails]
  have "make_request atoms_codec default_settings live_cache fresh_breaker send_fails ''GET''
        (Some ''genres:movies'') redis_with_true
      = ((Inr (JBool True), fresh_breaker), redis_with_true)" .
  with h1 h2 h3 h4 h5 h7 h8 show ?thesis by blast
qed

subsection \<open>Cache keys\<close>

text \<open>
  C7 at the failing input. \<open>get_movie_details(550, ["credits"])\<close> and
  \<open>get_movie_details(550, ["videos"])\<close> ask the same endpoint for different
  sub-resources and derive the same cache key, \<open>movie:550:full\<close>: the key does not
  encode \<open>append_to_response\<close>. The sibling wrappers encode their parameters: the
  page of the reviews, the page and the region of the popular movies.
\<close>

theorem movie_details_key_collision:
  "req_cache_key (get_movie_details 550 (Some [''credits'']))
     = req_cache_key (get_movie_details 550 (Some [''videos'']))
   \<and> req_endpoint (get_movie_details 550 (Some [''credits'']))
     = req_endpoint (get_movie_details 550 (Some [''videos'']))
   \<and> req_params (get_movie_details 550 (Some [''credits'']))
     = [(''append_to_response'', JStr ''credits'')]
   \<and> req_params (get_movie_details 550 (Some [''videos'']))
     = [(''append_to_response'', JStr ''videos'')]
   \<and> req_cache_key (get_movie_details 550 (Some [''credits''])) = Some ''movie:550:full''
   \<and> req_cache_key (get_movie_reviews 550 1) = Some ''movie:550:reviews:page1''
   \<and> req_cache_key (get_movie_reviews 550 2) = Some ''movie:550:reviews:page2''
   \<and> req_cache_key (get_popular_movies 1 None) = Some ''popular:movies:page1:regionNone''
   \<and> req_cache_key (get_popular_movies 1 (Some ''US'')) = Some ''popular:movies:page1:regionUS''"
  by (simp add: get_movie_details_def get_movie_reviews_def get_popular_movies_def
      str_int_def digit_char_def)

end
